theory Spec2Isabelle
  imports Complex_Main "HOL-Library.FSet" "HOL-Library.Multiset"
begin

section \<open>Data model (types.ts)\<close>

text \<open>
  The string-literal union \<^verbatim>\<open>Difficulty\<close> of types.ts; the accented letters of the
  literals are dropped in the constructor names.
\<close>

datatype Difficulty = Facil | Medio | Dificil | Experto

section \<open>Numbers\<close>

text \<open>
  The type \<^verbatim>\<open>number\<close> of the point values and of the score is an IEEE-754 double. The
  specification makes both integers: \<open>Finite n\<close> is the double whose value is the integer
  \<open>n\<close>, beside the two infinities and \<^verbatim>\<open>NaN\<close>; numbers with a fractional part are outside
  the model. The sum of two doubles is their exact sum rounded to 53 significant bits, to
  the nearest value and to the even one of two nearest, and an infinity when the rounded
  value reaches \<open>2 ^ 1024\<close>.
\<close>

datatype number = Finite int | PosInfinity | NegInfinity | NaN

text \<open>The number of bits of \<open>m\<close> beyond 53.\<close>

function excess :: "nat \<Rightarrow> nat" where
  "excess m = (if m < 2 ^ 53 then 0 else Suc (excess (m div 2)))"
  by pat_completeness auto
termination
  by (relation "measure id") auto

declare excess.simps [simp del]

definition round_nat :: "nat \<Rightarrow> nat" where
  "round_nat m =
     (let e = excess m;
          q = m div 2 ^ e;
          r = m mod 2 ^ e;
          half = 2 ^ (e - 1)
      in if e = 0 then m
         else if r < half \<or> (r = half \<and> even q) then q * 2 ^ e
         else (q + 1) * 2 ^ e)"

definition round_double :: "int \<Rightarrow> int" where
  "round_double n = (if n < 0 then - int (round_nat (nat (- n))) else int (round_nat (nat n)))"

definition overflow :: "int \<Rightarrow> number" where
  "overflow r =
     (if 2 ^ 1024 \<le> r then PosInfinity
      else if r \<le> - (2 ^ 1024) then NegInfinity
      else Finite r)"

text \<open>The operator \<^verbatim>\<open>+\<close> on two numbers.\<close>

fun number_add :: "number \<Rightarrow> number \<Rightarrow> number" where
  "number_add (Finite a) (Finite b) = overflow (round_double (a + b))"
| "number_add NaN y = NaN"
| "number_add x NaN = NaN"
| "number_add PosInfinity NegInfinity = NaN"
| "number_add NegInfinity PosInfinity = NaN"
| "number_add PosInfinity y = PosInfinity"
| "number_add x PosInfinity = PosInfinity"
| "number_add NegInfinity y = NegInfinity"
| "number_add x NegInfinity = NegInfinity"

declare number_add.simps(1) [simp del]





section \<open>Questions, phases and feedback\<close>

text \<open>
  The interface \<^verbatim>\<open>TriviaQuestion\<close>. The field \<^verbatim>\<open>id\<close> is named \<open>id_q\<close> (\<open>id\<close> is the
  identity function of HOL), and the accents of \<^verbatim>\<open>categoria\<close>, \<^verbatim>\<open>subcategoria\<close> and
  \<^verbatim>\<open>explicacion\<close> are dropped. The identifier is an integer, only ever compared, and is an \<open>int\<close>; the
  point value is a \<open>number\<close>, since the score is computed from it.
\<close>

record TriviaQuestion =
  id_q :: int
  nivel :: Difficulty
  categoria :: string
  subcategoria :: string
  pregunta :: string
  opciones :: "string list"
  respuesta_correcta :: string
  explicacion :: string
  tipo :: string
  puntuacion :: number

datatype GameState = Start | ChoosingDifficulty | Answering | Answered | GameOver

record Feedback =
  isCorrect :: bool
  correctAnswer :: string
  explanation :: string

section \<open>The component state (the \<^verbatim>\<open>useState\<close> cells of App)\<close>

text \<open>
  One field per \<^verbatim>\<open>useState\<close> cell, in the order of the source. A nullable cell is an
  \<open>option\<close>, the \<^verbatim>\<open>Set<number>\<close> a finite set. Every handler is a function from the state
  of the render it was created in to the state after its updates have been applied.
\<close>

record AppState =
  gameState :: GameState
  allQuestions :: "TriviaQuestion list"
  sessionQuestions :: "TriviaQuestion list"
  usedQuestionIds :: "int fset"
  currentQuestion :: "TriviaQuestion option"
  score :: number
  selectedAnswer :: "string option"
  feedback :: "Feedback option"

definition initialState :: AppState where
  "initialState =
     \<lparr>gameState = Start, allQuestions = [], sessionQuestions = [], usedQuestionIds = {||},
      currentQuestion = None, score = Finite 0, selectedAnswer = None, feedback = None\<rparr>"

definition QUESTIONS_PER_DIFFICULTY :: nat where
  "QUESTIONS_PER_DIFFICULTY = 10"

text \<open>
  Modelled from the spec: the constant \<^verbatim>\<open>DIFFICULTIES\<close> is imported from
  \<^verbatim>\<open>./constants\<close>, which is not among the sources. The specification calls it the fixed
  tier enumeration, ordered from easiest to hardest; the four tiers are those of the type
  \<^verbatim>\<open>Difficulty\<close>. The functions below take the enumeration as their first argument
  \<open>ds\<close>; this constant is the instance used on concrete inputs.
\<close>

definition DIFFICULTIES :: "Difficulty list" where
  "DIFFICULTIES = [Facil, Medio, Dificil, Experto]"

section \<open>Session selection\<close>

text \<open>
  \<^verbatim>\<open>[...questionsOfDifficulty].sort(() => 0.5 - Math.random())\<close> sorts a copy with a
  random comparator. Its outcome is the argument \<open>shuffle\<close>: \<open>shuffle difficulty xs\<close> is the
  array the sort produced in the iteration for \<open>difficulty\<close>. Whatever the comparator
  answers, a sort rearranges the elements it is given, which is what \<open>is_shuffle\<close> says.
\<close>

definition is_shuffle :: "(Difficulty \<Rightarrow> TriviaQuestion list \<Rightarrow> TriviaQuestion list) \<Rightarrow> bool" where
  "is_shuffle shuffle = (\<forall>d xs. mset (shuffle d xs) = mset xs)"

definition selectSessionQuestions ::
  "Difficulty list \<Rightarrow> (Difficulty \<Rightarrow> TriviaQuestion list \<Rightarrow> TriviaQuestion list) \<Rightarrow>
   TriviaQuestion list \<Rightarrow> TriviaQuestion list" where
  "selectSessionQuestions ds shuffle allQs =
     (if length allQs = 0 then []
      else foldl (\<lambda>newSessionQuestions difficulty.
             let questionsOfDifficulty = filter (\<lambda>q. nivel q = difficulty) allQs;
                 shuffled = shuffle difficulty questionsOfDifficulty;
                 selected = take QUESTIONS_PER_DIFFICULTY shuffled
             in newSessionQuestions @ selected) [] ds)"

text \<open>The slice pushed in the iteration for one tier.\<close>

definition selectedOf ::
  "(Difficulty \<Rightarrow> TriviaQuestion list \<Rightarrow> TriviaQuestion list) \<Rightarrow> TriviaQuestion list \<Rightarrow>
   Difficulty \<Rightarrow> TriviaQuestion list" where
  "selectedOf shuffle allQs difficulty =
     take QUESTIONS_PER_DIFFICULTY (shuffle difficulty (filter (\<lambda>q. nivel q = difficulty) allQs))"

definition handleStartGame ::
  "Difficulty list \<Rightarrow> (Difficulty \<Rightarrow> TriviaQuestion list \<Rightarrow> TriviaQuestion list) \<Rightarrow>
   AppState \<Rightarrow> AppState" where
  "handleStartGame ds shuffle st =
     st\<lparr>score := Finite 0,
        usedQuestionIds := {||},
        currentQuestion := None,
        selectedAnswer := None,
        feedback := None,
        sessionQuestions := selectSessionQuestions ds shuffle (allQuestions st),
        gameState := ChoosingDifficulty\<rparr>"

section \<open>Availability\<close>

text \<open>
  The \<^verbatim>\<open>Map<Difficulty, TriviaQuestion[]>\<close> built by the \<^verbatim>\<open>forEach\<close> over the enumeration;
  \<^verbatim>\<open>Map.get\<close> of a key that was never set is \<^verbatim>\<open>undefined\<close>, here \<open>None\<close>.
\<close>

definition availableQuestionsByDifficulty ::
  "Difficulty list \<Rightarrow> TriviaQuestion list \<Rightarrow> int fset \<Rightarrow> (Difficulty \<rightharpoonup> TriviaQuestion list)" where
  "availableQuestionsByDifficulty ds sessionQs usedIds =
     foldl (\<lambda>available diff.
              let filtered = filter (\<lambda>q. nivel q = diff \<and> \<not> id_q q |\<in>| usedIds) sessionQs
              in available(diff \<mapsto> filtered)) Map.empty ds"

text \<open>The questions stored under a tier; none when the map has no entry for it.\<close>

definition questionsAt :: "(Difficulty \<rightharpoonup> TriviaQuestion list) \<Rightarrow> Difficulty \<Rightarrow> TriviaQuestion list" where
  "questionsAt available d = (case available d of None \<Rightarrow> [] | Some qs \<Rightarrow> qs)"

definition availableCounts ::
  "Difficulty list \<Rightarrow> TriviaQuestion list \<Rightarrow> int fset \<Rightarrow> (Difficulty \<rightharpoonup> nat)" where
  "availableCounts ds sessionQs usedIds =
     map_option length \<circ> availableQuestionsByDifficulty ds sessionQs usedIds"

definition isGameFinished :: "AppState \<Rightarrow> bool" where
  "isGameFinished st =
     (if length (sessionQuestions st) = 0 then False
      else fcard (usedQuestionIds st) \<ge> length (sessionQuestions st))"

section \<open>Handlers\<close>

text \<open>
  \<^verbatim>\<open>Math.random()\<close> is the argument \<open>random\<close>, a real number; the runtime returns a value
  in \<open>[0, 1)\<close>. The product and \<^verbatim>\<open>Math.floor\<close> are taken over the reals. An index outside
  the array reads \<^verbatim>\<open>undefined\<close>, and \<^verbatim>\<open>question.id\<close> then throws a \<^verbatim>\<open>TypeError\<close>.
\<close>

datatype Error = TypeError

definition handleSelectDifficulty ::
  "Difficulty list \<Rightarrow> real \<Rightarrow> Difficulty \<Rightarrow> AppState \<Rightarrow> Error + AppState" where
  "handleSelectDifficulty ds random difficulty st =
     (case availableQuestionsByDifficulty ds (sessionQuestions st) (usedQuestionIds st) difficulty of
        None \<Rightarrow> Inr st
      | Some availableQuestions \<Rightarrow>
          if length availableQuestions > 0 then
            let questionIndex = \<lfloor>random * real (length availableQuestions)\<rfloor>
            in if 0 \<le> questionIndex \<and> questionIndex < int (length availableQuestions) then
                 let question = availableQuestions ! nat questionIndex
                 in Inr (st\<lparr>currentQuestion := Some question,
                            usedQuestionIds := finsert (id_q question) (usedQuestionIds st),
                            gameState := Answering,
                            selectedAnswer := None,
                            feedback := None\<rparr>)
               else Inl TypeError
          else Inr st)"

definition handleAnswer :: "string \<Rightarrow> AppState \<Rightarrow> AppState" where
  "handleAnswer answer st =
     (case currentQuestion st of
        None \<Rightarrow> st
      | Some q \<Rightarrow>
          let isCorrect = (answer = respuesta_correcta q)
          in st\<lparr>selectedAnswer := Some answer,
                score := (if isCorrect then number_add (score st) (puntuacion q) else score st),
                feedback := Some \<lparr>isCorrect = isCorrect,
                                  correctAnswer = respuesta_correcta q,
                                  explanation = explicacion q\<rparr>,
                gameState := Answered\<rparr>)"

definition handleContinue :: "AppState \<Rightarrow> AppState" where
  "handleContinue st =
     (if isGameFinished st then st\<lparr>gameState := GameOver\<rparr>
      else st\<lparr>gameState := ChoosingDifficulty\<rparr>)"

definition handleEndGame :: "AppState \<Rightarrow> AppState" where
  "handleEndGame st = st\<lparr>gameState := GameOver\<rparr>"

section \<open>Play within one session\<close>

text \<open>
  The input events of a session, as \<^verbatim>\<open>renderContent\<close> wires them: \<^verbatim>\<open>onSelect\<close> is
  \<open>handleSelectDifficulty\<close> (with the value \<^verbatim>\<open>Math.random()\<close> returned in that call),
  \<^verbatim>\<open>onAnswer\<close> is \<open>handleAnswer\<close>, \<^verbatim>\<open>onContinue\<close> is \<open>handleContinue\<close> and \<^verbatim>\<open>onEndGame\<close> is
  \<open>handleEndGame\<close>. \<^verbatim>\<open>onStart\<close> and \<^verbatim>\<open>onPlayAgain\<close>, which begin the next session, are not
  among them. The handlers are not guarded by the phase, so every order of events is run.
\<close>

datatype Event = SelectDifficulty real Difficulty | SubmitAnswer string | Continue | EndGame

fun dispatch :: "Difficulty list \<Rightarrow> Event \<Rightarrow> AppState \<Rightarrow> Error + AppState" where
  "dispatch ds (SelectDifficulty random difficulty) st = handleSelectDifficulty ds random difficulty st"
| "dispatch ds (SubmitAnswer answer) st = Inr (handleAnswer answer st)"
| "dispatch ds Continue st = Inr (handleContinue st)"
| "dispatch ds EndGame st = Inr (handleEndGame st)"

fun run :: "Difficulty list \<Rightarrow> Event list \<Rightarrow> AppState \<Rightarrow> Error + AppState" where
  "run ds [] st = Inr st"
| "run ds (ev # evs) st =
     (case dispatch ds ev st of Inl e \<Rightarrow> Inl e | Inr st' \<Rightarrow> run ds evs st')"

fun random_in_range :: "Event \<Rightarrow> bool" where
  "random_in_range (SelectDifficulty random difficulty) = (0 \<le> random \<and> random < 1)"
| "random_in_range (SubmitAnswer answer) = True"
| "random_in_range Continue = True"
| "random_in_range EndGame = True"

text \<open>
  The question an event answers correctly, if any: the event is a submitted answer, there is
  a current question, and the answer is its correct answer.
\<close>

fun awarded :: "Event \<Rightarrow> AppState \<Rightarrow> TriviaQuestion list" where
  "awarded (SubmitAnswer answer) st =
     (case currentQuestion st of
        None \<Rightarrow> []
      | Some q \<Rightarrow> if answer = respuesta_correcta q then [q] else [])"
| "awarded (SelectDifficulty random difficulty) st = []"
| "awarded Continue st = []"
| "awarded EndGame st = []"

text \<open>The questions answered correctly along a run, one entry for each correct submission.\<close>

fun correctlyAnswered :: "Difficulty list \<Rightarrow> Event list \<Rightarrow> AppState \<Rightarrow> TriviaQuestion list" where
  "correctlyAnswered ds [] st = []"
| "correctlyAnswered ds (ev # evs) st =
     awarded ev st
     @ (case dispatch ds ev st of Inl e \<Rightarrow> [] | Inr st' \<Rightarrow> correctlyAnswered ds evs st')"

section \<open>Concrete inputs\<close>

definition mkQuestion :: "int \<Rightarrow> Difficulty \<Rightarrow> string \<Rightarrow> int \<Rightarrow> TriviaQuestion" where
  "mkQuestion i d ans pts =
     \<lparr>id_q = i, nivel = d, categoria = ''c'', subcategoria = ''s'', pregunta = ''p'',
      opciones = [ans, ''x''], respuesta_correcta = ans, explicacion = ''e'', tipo = ''t'',
      puntuacion = Finite pts\<rparr>"

definition playing :: "TriviaQuestion list \<Rightarrow> int fset \<Rightarrow> TriviaQuestion option \<Rightarrow> int \<Rightarrow> AppState" where
  "playing sessionQs usedIds cur sc =
     \<lparr>gameState = ChoosingDifficulty, allQuestions = sessionQs, sessionQuestions = sessionQs,
      usedQuestionIds = usedIds, currentQuestion = cur, score = Finite sc, selectedAnswer = None,
      feedback = None\<rparr>"

definition sampleSession :: "TriviaQuestion list" where
  "sampleSession =
     [mkQuestion 1 Facil ''a'' 1, mkQuestion 2 Medio ''b'' 2, mkQuestion 3 Facil ''c'' 1,
      mkQuestion 4 Experto ''d'' 4]"

definition sampleBank :: "TriviaQuestion list" where
  "sampleBank =
     mkQuestion 13 Medio ''b'' 2
     # map (\<lambda>i. mkQuestion i Facil ''a'' 1) [1, 2, 3, 4, 5, 6, 7, 8, 9, 10, 11, 12]"

definition sampleEvents :: "Event list" where
  "sampleEvents =
     [SelectDifficulty (1 / 2) Facil, SubmitAnswer ''c'', Continue,
      SelectDifficulty 0 Medio, SubmitAnswer ''zz'', Continue,
      SelectDifficulty 0 Facil, SubmitAnswer ''a'']"

definition sampleStart :: AppState where
  "sampleStart =
     handleStartGame DIFFICULTIES (\<lambda>d xs. xs)
       ((playing [] {|7|} None 9)\<lparr>allQuestions := sampleSession\<rparr>)"

definition afterFirstQuestion :: AppState where
  "afterFirstQuestion =
     (playing sampleSession {|3|} (Some (mkQuestion 3 Facil ''c'' 1)) 1)
       \<lparr>selectedAnswer := Some ''c'',
        feedback := Some \<lparr>isCorrect = True, correctAnswer = ''c'', explanation = ''e''\<rparr>\<rparr>"

section \<open>Number arithmetic\<close>

lemma excess_small: "m < 2 ^ 53 \<Longrightarrow> excess m = 0"
  by (simp add: excess.simps)

lemma excess_large: "\<not> m < 2 ^ 53 \<Longrightarrow> excess m = Suc (excess (m div 2))"
  by (subst excess.simps) simp

lemma excess_bounds:
  "2 ^ 53 \<le> m \<Longrightarrow> 2 ^ 52 * 2 ^ excess m \<le> m \<and> m < 2 ^ 53 * 2 ^ excess m \<and> 0 < excess m"
proof (induction m rule: excess.induct)
  case (1 m)
  then have large: "\<not> m < 2 ^ 53" by simp
  show ?case
  proof (cases "m div 2 < 2 ^ 53")
    case True
    then have "excess m = 1"
      using large by (simp add: excess_large excess_small)
    with 1 True show ?thesis by simp
  next
    case False
    with 1 large have IH: "2 ^ 52 * 2 ^ excess (m div 2) \<le> m div 2"
       "m div 2 < 2 ^ 53 * 2 ^ excess (m div 2)"
      by simp_all
    have e: "excess m = Suc (excess (m div 2))"
      using large by (rule excess_large)
    from IH show ?thesis
      unfolding e by (simp) linarith
  qed
qed

lemma excess_unique:
  "0 < e \<Longrightarrow> 2 ^ 52 * 2 ^ e \<le> m \<Longrightarrow> m < 2 ^ 53 * 2 ^ e \<Longrightarrow> excess m = e"
proof (induction e arbitrary: m)
  case 0
  then show ?case by simp
next
  case (Suc e)
  from Suc.prems have large: "\<not> m < 2 ^ 53"
  proof -
    have "(2::nat) ^ 53 = 2 ^ 52 * 2" by simp
    also have "\<dots> \<le> 2 ^ 52 * 2 ^ Suc e" by (intro mult_le_mono2) simp
    finally show ?thesis using Suc.prems by linarith
  qed
  have lo: "2 ^ 52 * 2 ^ e \<le> m div 2" and hi: "m div 2 < 2 ^ 53 * 2 ^ e"
    using Suc.prems by simp_all
  show ?case
  proof (cases e)
    case 0
    with hi have "excess (m div 2) = 0" by (simp add: excess_small)
    with large 0 show ?thesis by (simp add: excess_large)
  next
    case (Suc e')
    with Suc.IH [OF _ lo hi] large show ?thesis
      by (simp add: excess_large)
  qed
qed


lemma round_nat_small: "m < 2 ^ 53 \<Longrightarrow> round_nat m = m"
  by (simp add: round_nat_def excess_small)

lemma round_nat_large:
  assumes "2 ^ 53 \<le> m"
  shows "round_nat m =
     (if m mod 2 ^ excess m < 2 ^ (excess m - 1)
         \<or> (m mod 2 ^ excess m = 2 ^ (excess m - 1) \<and> even (m div 2 ^ excess m))
      then (m div 2 ^ excess m) * 2 ^ excess m
      else (m div 2 ^ excess m + 1) * 2 ^ excess m)"
  using excess_bounds [OF assms] by (simp add: round_nat_def Let_def)




lemma shift_exponent:
  assumes "Suc a \<le> b"
  shows "(2::nat) ^ 53 * 2 ^ a \<le> 2 ^ 52 * 2 ^ b"
proof -
  have "(2::nat) ^ 53 * 2 ^ a = 2 ^ 52 * 2 ^ Suc a" by simp
  also have "\<dots> \<le> 2 ^ 52 * 2 ^ b"
    using assms by (intro mult_le_mono2 power_increasing) simp_all
  finally show ?thesis .
qed

lemma two53_le:
  assumes "0 < e"
  shows "(2::nat) ^ 53 \<le> 2 ^ 52 * 2 ^ e"
proof -
  from assms have "Suc 0 \<le> e" by simp
  then have "(2::nat) ^ 53 * 2 ^ 0 \<le> 2 ^ 52 * 2 ^ e" by (rule shift_exponent)
  then show ?thesis by (simp only: power_0 mult_1_right)
qed



lemma round_nat_multiple:
  assumes "0 < e" and "2 ^ 52 \<le> k" and "k < 2 ^ 53"
  shows "round_nat (k * 2 ^ e) = k * 2 ^ e"
proof -
  have lo: "2 ^ 52 * 2 ^ e \<le> k * 2 ^ e"
    using assms(2) by (intro mult_le_mono1)
  have hi: "k * 2 ^ e < 2 ^ 53 * 2 ^ e"
    using assms(3) by simp
  have e: "excess (k * 2 ^ e) = e"
    using assms(1) lo hi by (rule excess_unique)
  have large: "2 ^ 53 \<le> k * 2 ^ e"
    using two53_le [OF assms(1)] lo by (rule order_trans)
  show ?thesis
    by (simp add: round_nat_large [OF large] e)
qed

lemma round_nat_top:
  "round_nat (2 ^ 53 * 2 ^ e) = 2 ^ 53 * 2 ^ e"
proof -
  have "round_nat (2 ^ 52 * 2 ^ Suc e) = 2 ^ 52 * 2 ^ Suc e"
    by (rule round_nat_multiple) simp_all
  then show ?thesis by simp
qed


lemma round_nat_exact: "m \<le> 2 ^ 53 \<Longrightarrow> round_nat m = m"
proof (cases "m < 2 ^ 53")
  case True
  then show ?thesis by (rule round_nat_small)
next
  case False
  assume "m \<le> 2 ^ 53"
  with False have "m = 2 ^ 53 * 2 ^ 0" by simp
  then show ?thesis using round_nat_top [of 0] by simp
qed

lemma round_double_exact:
  assumes "\<bar>n\<bar> \<le> 2 ^ 53"
  shows "round_double n = n"
proof (cases "n < 0")
  case True
  with assms have "nat (- n) \<le> 2 ^ 53" by (simp add: nat_le_iff)
  then have "round_nat (nat (- n)) = nat (- n)" by (rule round_nat_exact)
  with True show ?thesis by (simp add: round_double_def)
next
  case False
  with assms have "nat n \<le> 2 ^ 53" by (simp add: nat_le_iff)
  then have "round_nat (nat n) = nat n" by (rule round_nat_exact)
  with False show ?thesis by (simp add: round_double_def)
qed




lemma safe_below_overflow: "\<bar>n\<bar> \<le> 2 ^ 53 \<Longrightarrow> \<bar>n :: int\<bar> < 2 ^ 1024"
proof -
  have "(2::int) ^ 53 < 2 ^ 1024" by (rule power_strict_increasing) simp_all
  then show "\<bar>n\<bar> \<le> 2 ^ 53 \<Longrightarrow> \<bar>n\<bar> < 2 ^ 1024" by linarith
qed

lemma overflow_finite: "\<bar>r\<bar> < 2 ^ 1024 \<Longrightarrow> overflow r = Finite r"
  unfolding overflow_def by (simp only: abs_less_iff) (auto simp only: if_False if_True not_le split: if_splits)

lemma number_add_exact:
  assumes "\<bar>a + b\<bar> \<le> 2 ^ 53"
  shows "number_add (Finite a) (Finite b) = Finite (a + b)"
  using round_double_exact [OF assms] overflow_finite [OF safe_below_overflow [OF assms]]
  by (simp only: number_add.simps)







text \<open>Two sums past \<open>2 ^ 53\<close>, where the odd integers are not doubles.\<close>

lemma number_add_rounds:
  "number_add (Finite (2 ^ 53)) (Finite 1) = Finite (2 ^ 53)
   \<and> number_add (Finite (2 ^ 53)) (Finite 3) = Finite (2 ^ 53 + 4)"
  by (simp add: number_add.simps(1) overflow_def round_double_def round_nat_def excess.simps Let_def)

section \<open>Termination test\<close>

text \<open>
  C1, as stated: \<open>isGameFinished\<close> holds exactly when the used set and the session have the
  same size, also for the empty session. The source returns false for the empty session,
  where both sizes are 0, and compares with \<^verbatim>\<open>>=\<close>, so a used set larger than the session
  also finishes the game.
\<close>

theorem isGameFinished_size_eq_counterexample:
  "\<not> (isGameFinished (playing [] {||} None 0)
        \<longleftrightarrow> fcard (usedQuestionIds (playing [] {||} None 0))
            = length (sessionQuestions (playing [] {||} None 0)))
   \<and> \<not> (isGameFinished (playing [mkQuestion 1 Facil ''a'' 1] {|1, 2|} None 0)
        \<longleftrightarrow> fcard (usedQuestionIds (playing [mkQuestion 1 Facil ''a'' 1] {|1, 2|} None 0))
            = length (sessionQuestions (playing [mkQuestion 1 Facil ''a'' 1] {|1, 2|} None 0)))"
  by (simp add: isGameFinished_def playing_def fcard_finsert_if)

text \<open>
  C1, amended: \<open>isGameFinished\<close> holds exactly when the session is not empty and the used set
  has at least as many identifiers as the session has questions; for a used set no larger
  than the session that is: the session is not empty and the two sizes are equal.
\<close>

theorem isGameFinished_iff:
  "(isGameFinished st \<longleftrightarrow>
      sessionQuestions st \<noteq> [] \<and> length (sessionQuestions st) \<le> fcard (usedQuestionIds st))
   \<and> (fcard (usedQuestionIds st) \<le> length (sessionQuestions st) \<longrightarrow>
       (isGameFinished st \<longleftrightarrow>
          sessionQuestions st \<noteq> [] \<and> fcard (usedQuestionIds st) = length (sessionQuestions st)))"
  by (auto simp: isGameFinished_def)

theorem isGameFinished_iff_witness:
  "fcard (usedQuestionIds (playing [mkQuestion 1 Facil ''a'' 1] {|1|} None 0))
     \<le> length (sessionQuestions (playing [mkQuestion 1 Facil ''a'' 1] {|1|} None 0))
   \<and> isGameFinished (playing [mkQuestion 1 Facil ''a'' 1] {|1|} None 0)"
  using isGameFinished_iff [of "playing [mkQuestion 1 Facil ''a'' 1] {|1|} None 0"]
  by (simp add: playing_def fcard_finsert_if)

section \<open>Starting, answering and ending\<close>

text \<open>
  C7: \<open>handleStartGame\<close> is a total function of the state, so it can be called in every
  state. After it the score is 0, the used set is empty, the current question, the selected
  answer and the feedback are cleared, the session is the result of
  \<open>selectSessionQuestions\<close> on the bank, and the phase is \<open>ChoosingDifficulty\<close>, not
  \<open>Start\<close>. The bank itself is kept.
\<close>

theorem handleStartGame_resets:
  "score (handleStartGame ds shuffle st) = Finite 0
   \<and> usedQuestionIds (handleStartGame ds shuffle st) = {||}
   \<and> currentQuestion (handleStartGame ds shuffle st) = None
   \<and> selectedAnswer (handleStartGame ds shuffle st) = None
   \<and> feedback (handleStartGame ds shuffle st) = None
   \<and> sessionQuestions (handleStartGame ds shuffle st)
       = selectSessionQuestions ds shuffle (allQuestions st)
   \<and> gameState (handleStartGame ds shuffle st) = ChoosingDifficulty
   \<and> gameState (handleStartGame ds shuffle st) \<noteq> Start
   \<and> allQuestions (handleStartGame ds shuffle st) = allQuestions st"
  by (simp add: handleStartGame_def)

text \<open>
  C8: with a current question, an answer different from the question's correct answer
  leaves the score as it was, stores the answer, produces the feedback (false, the correct
  answer, the explanation) and moves to \<open>Answered\<close>.
\<close>

theorem handleAnswer_wrong:
  assumes "currentQuestion st = Some q" and "answer \<noteq> respuesta_correcta q"
  shows "score (handleAnswer answer st) = score st
         \<and> feedback (handleAnswer answer st)
             = Some \<lparr>isCorrect = False, correctAnswer = respuesta_correcta q,
                     explanation = explicacion q\<rparr>
         \<and> selectedAnswer (handleAnswer answer st) = Some answer
         \<and> gameState (handleAnswer answer st) = Answered"
  using assms by (simp add: handleAnswer_def)

theorem handleAnswer_wrong_witness:
  "currentQuestion (playing [] {||} (Some (mkQuestion 1 Facil ''a'' 3)) 5)
     = Some (mkQuestion 1 Facil ''a'' 3)
   \<and> ''b'' \<noteq> respuesta_correcta (mkQuestion 1 Facil ''a'' 3)
   \<and> score (handleAnswer ''b'' (playing [] {||} (Some (mkQuestion 1 Facil ''a'' 3)) 5)) = Finite 5
   \<and> feedback (handleAnswer ''b'' (playing [] {||} (Some (mkQuestion 1 Facil ''a'' 3)) 5))
       = Some \<lparr>isCorrect = False, correctAnswer = ''a'', explanation = ''e''\<rparr>
   \<and> gameState (handleAnswer ''b'' (playing [] {||} (Some (mkQuestion 1 Facil ''a'' 3)) 5))
       = Answered"
  using handleAnswer_wrong [of "playing [] {||} (Some (mkQuestion 1 Facil ''a'' 3)) 5"
      "mkQuestion 1 Facil ''a'' 3" "''b''"]
  by (simp add: playing_def mkQuestion_def)

text \<open>
  C9: \<open>handleEndGame\<close> sets the phase to \<open>GameOver\<close> and nothing else, in every state and
  whatever the used set holds.
\<close>

theorem handleEndGame_frame:
  "gameState (handleEndGame st) = GameOver
   \<and> score (handleEndGame st) = score st
   \<and> usedQuestionIds (handleEndGame st) = usedQuestionIds st
   \<and> sessionQuestions (handleEndGame st) = sessionQuestions st
   \<and> currentQuestion (handleEndGame st) = currentQuestion st
   \<and> selectedAnswer (handleEndGame st) = selectedAnswer st
   \<and> feedback (handleEndGame st) = feedback st
   \<and> allQuestions (handleEndGame st) = allQuestions st"
  by (simp add: handleEndGame_def)

text \<open>
  C10: \<open>handleAnswer\<close> tests the current question only, never the phase. Without a
  current question it returns the state as it is. With one, whatever the phase, it stores
  the answer, compares it, adds the point value to the score when it is the correct answer
  (the sum of two numbers; the exact integer sum when that has a magnitude of at most
  \<open>2 ^ 53\<close>), sets the feedback and moves to \<open>Answered\<close>; the current question stays set. So
  in the phase \<open>Answered\<close> a further call with the correct answer adds the point value of
  the same question again.
\<close>

theorem handleAnswer_guarded_by_question_only:
  "(currentQuestion st = None \<longrightarrow> handleAnswer answer st = st)
   \<and> (\<forall>q. currentQuestion st = Some q \<longrightarrow>
          handleAnswer answer st
            = st\<lparr>selectedAnswer := Some answer,
                 score := (if answer = respuesta_correcta q
                           then number_add (score st) (puntuacion q) else score st),
                 feedback := Some \<lparr>isCorrect = (answer = respuesta_correcta q),
                                   correctAnswer = respuesta_correcta q,
                                   explanation = explicacion q\<rparr>,
                 gameState := Answered\<rparr>
          \<and> currentQuestion (handleAnswer answer st) = Some q
          \<and> gameState (handleAnswer answer st) = Answered
          \<and> score (handleAnswer (respuesta_correcta q) (handleAnswer answer st))
              = number_add (score (handleAnswer answer st)) (puntuacion q)
          \<and> (\<forall>s p. score st = Finite s \<and> puntuacion q = Finite p \<and> \<bar>s + p\<bar> \<le> 2 ^ 53 \<longrightarrow>
                score (handleAnswer (respuesta_correcta q) st) = Finite (s + p))
          \<and> (\<forall>s p. score st = Finite s \<and> puntuacion q = Finite p
                  \<and> \<bar>s + p\<bar> \<le> 2 ^ 53 \<and> \<bar>s + 2 * p\<bar> \<le> 2 ^ 53 \<longrightarrow>
                score (handleAnswer (respuesta_correcta q) (handleAnswer (respuesta_correcta q) st))
                  = Finite (s + 2 * p)))"
proof -
  have guard: "currentQuestion st = None \<longrightarrow> handleAnswer answer st = st"
    by (simp add: handleAnswer_def)
  have answered: "handleAnswer answer st
        = st\<lparr>selectedAnswer := Some answer,
             score := (if answer = respuesta_correcta q
                       then number_add (score st) (puntuacion q) else score st),
             feedback := Some \<lparr>isCorrect = (answer = respuesta_correcta q),
                               correctAnswer = respuesta_correcta q,
                               explanation = explicacion q\<rparr>,
             gameState := Answered\<rparr>
      \<and> currentQuestion (handleAnswer answer st) = Some q
      \<and> gameState (handleAnswer answer st) = Answered
      \<and> score (handleAnswer (respuesta_correcta q) (handleAnswer answer st))
          = number_add (score (handleAnswer answer st)) (puntuacion q)"
    if "currentQuestion st = Some q" for q
    using that by (simp add: handleAnswer_def)
  have once: "score (handleAnswer (respuesta_correcta q) st) = Finite (s + p)"
    if "currentQuestion st = Some q" and "score st = Finite s" and "puntuacion q = Finite p"
      and "\<bar>s + p\<bar> \<le> 2 ^ 53" for q s p
    using that by (simp add: handleAnswer_def number_add_exact)
  have twice: "score (handleAnswer (respuesta_correcta q) (handleAnswer (respuesta_correcta q) st))
      = Finite (s + 2 * p)"
    if "currentQuestion st = Some q" and "score st = Finite s" and "puntuacion q = Finite p"
      and "\<bar>s + p\<bar> \<le> 2 ^ 53" and "\<bar>s + 2 * p\<bar> \<le> 2 ^ 53" for q s p
  proof -
    from that(5) have "\<bar>s + p + p\<bar> \<le> 2 ^ 53"
      by (simp add: algebra_simps)
    with that(1-4) show ?thesis
      by (simp add: handleAnswer_def number_add_exact)
  qed
  from guard answered once twice show ?thesis
    by blast
qed

theorem handleAnswer_guarded_by_question_only_witness:
  "currentQuestion ((playing [] {|1|} None 3)\<lparr>gameState := Answering\<rparr>) = None
   \<and> handleAnswer ''a'' ((playing [] {|1|} None 3)\<lparr>gameState := Answering\<rparr>)
       = (playing [] {|1|} None 3)\<lparr>gameState := Answering\<rparr>
   \<and> currentQuestion
       ((playing [] {|1|} (Some (mkQuestion 1 Facil ''a'' 3)) 3)\<lparr>gameState := Answered\<rparr>)
       = Some (mkQuestion 1 Facil ''a'' 3)
   \<and> score (handleAnswer ''a''
        ((playing [] {|1|} (Some (mkQuestion 1 Facil ''a'' 3)) 3)\<lparr>gameState := Answered\<rparr>))
       = Finite 6
   \<and> score (handleAnswer ''a'' (handleAnswer ''a''
        ((playing [] {|1|} (Some (mkQuestion 1 Facil ''a'' 3)) 3)\<lparr>gameState := Answered\<rparr>)))
       = Finite 9"
proof -
  let ?idle = "(playing [] {|1|} None 3)\<lparr>gameState := Answering\<rparr>"
  let ?q = "mkQuestion 1 Facil ''a'' 3"
  let ?answered = "(playing [] {|1|} (Some ?q) 3)\<lparr>gameState := Answered\<rparr>"
  have idle: "currentQuestion ?idle = None"
    by (simp add: playing_def)
  with handleAnswer_guarded_by_question_only [of ?idle "''a''"]
  have unchanged: "handleAnswer ''a'' ?idle = ?idle"
    by blast
  have current: "currentQuestion ?answered = Some ?q"
    and start: "score ?answered = Finite 3"
    and points: "puntuacion ?q = Finite 3"
    and correct: "respuesta_correcta ?q = ''a''"
    by (simp_all add: playing_def mkQuestion_def)
  have once: "\<bar>(3::int) + 3\<bar> \<le> 2 ^ 53" and twice: "\<bar>(3::int) + 2 * 3\<bar> \<le> 2 ^ 53"
    by simp_all
  from handleAnswer_guarded_by_question_only [of ?answered "''a''"] current start points once
  have "score (handleAnswer (respuesta_correcta ?q) ?answered) = Finite (3 + 3)"
    by blast
  then have six: "score (handleAnswer ''a'' ?answered) = Finite 6"
    by (simp add: correct)
  from handleAnswer_guarded_by_question_only [of ?answered "''a''"] current start points once twice
  have "score (handleAnswer (respuesta_correcta ?q) (handleAnswer (respuesta_correcta ?q) ?answered))
      = Finite (3 + 2 * 3)"
    by blast
  then have nine: "score (handleAnswer ''a'' (handleAnswer ''a'' ?answered)) = Finite 9"
    by (simp add: correct)
  from idle unchanged current six nine show ?thesis
    by blast
qed

section \<open>Availability by tier\<close>

lemma foldl_map_upd:
  "foldl (\<lambda>m d. m(d \<mapsto> f d)) m0 ds d' = (if d' \<in> set ds then Some (f d') else m0 d')"
  by (induction ds arbitrary: m0) auto

lemma availableQuestionsByDifficulty_apply:
  "availableQuestionsByDifficulty ds sessionQs usedIds d =
     (if d \<in> set ds
      then Some (filter (\<lambda>q. nivel q = d \<and> \<not> id_q q |\<in>| usedIds) sessionQs)
      else None)"
  unfolding availableQuestionsByDifficulty_def Let_def by (rule foldl_map_upd)

lemma questionsAt_available:
  "questionsAt (availableQuestionsByDifficulty ds sessionQs usedIds) d =
     (if d \<in> set ds
      then filter (\<lambda>q. \<not> id_q q |\<in>| usedIds) (filter (\<lambda>q. nivel q = d) sessionQs)
      else [])"
  by (simp add: questionsAt_def availableQuestionsByDifficulty_apply conj_commute)

lemma mset_concat_tiers:
  "distinct ds \<Longrightarrow>
   mset (concat (map (\<lambda>d. filter R (filter (\<lambda>q. nivel q = d) qs)) ds))
     = filter_mset (\<lambda>q. nivel q \<in> set ds \<and> R q) (mset qs)"
proof (induction ds)
  case Nil
  then show ?case by simp
next
  case (Cons a ds)
  have split:
    "filter_mset (\<lambda>q. nivel q \<in> set (a # ds) \<and> R q) (mset qs)
       = filter_mset (\<lambda>q. nivel q = a \<and> R q) (mset qs)
         + filter_mset (\<lambda>q. nivel q \<in> set ds \<and> R q) (mset qs)"
    using Cons.prems by (intro multiset_eqI) auto
  have "mset (concat (map (\<lambda>d. filter R (filter (\<lambda>q. nivel q = d) qs)) (a # ds)))
          = filter_mset (\<lambda>q. nivel q = a \<and> R q) (mset qs)
            + mset (concat (map (\<lambda>d. filter R (filter (\<lambda>q. nivel q = d) qs)) ds))"
    by simp
  also have "\<dots> = filter_mset (\<lambda>q. nivel q = a \<and> R q) (mset qs)
            + filter_mset (\<lambda>q. nivel q \<in> set ds \<and> R q) (mset qs)"
    using Cons by simp
  finally show ?case
    by (simp only: split)
qed

lemma mset_available_all_tiers:
  assumes "distinct ds" and "\<forall>q \<in> set sessionQs. nivel q \<in> set ds"
  shows "mset (concat (map (questionsAt (availableQuestionsByDifficulty ds sessionQs usedIds)) ds))
           + mset (filter (\<lambda>q. id_q q |\<in>| usedIds) sessionQs)
         = mset sessionQs"
proof -
  have entries: "map (questionsAt (availableQuestionsByDifficulty ds sessionQs usedIds)) ds
          = map (\<lambda>d. filter (\<lambda>q. \<not> id_q q |\<in>| usedIds) (filter (\<lambda>q. nivel q = d) sessionQs)) ds"
    by (rule map_cong) (simp_all add: questionsAt_available)
  have "mset (concat (map (questionsAt (availableQuestionsByDifficulty ds sessionQs usedIds)) ds))
          = filter_mset (\<lambda>q. nivel q \<in> set ds \<and> \<not> id_q q |\<in>| usedIds) (mset sessionQs)"
    unfolding entries by (rule mset_concat_tiers [OF assms(1)])
  also have "\<dots> = filter_mset (\<lambda>q. \<not> id_q q |\<in>| usedIds) (mset sessionQs)"
    using assms(2) by (intro filter_mset_cong) auto
  finally show ?thesis
    using multiset_partition [of "mset sessionQs" "\<lambda>q. id_q q |\<in>| usedIds"]
    by (simp add: add.commute)
qed

text \<open>
  C3: for an enumeration \<open>ds\<close> without repetition that holds the tier of every session
  question (as \<open>DIFFICULTIES\<close> does), the map has an entry for each tier \<open>T\<close> of \<open>ds\<close>: the
  tier-\<open>T\<close> questions of the session whose identifier is not used, in session order. The
  entries of all tiers together with the used session questions are the session, question
  by question and identifier by identifier, each as often as in the session; so when the
  identifiers of the session are distinct, each of them occurs once.
\<close>

theorem availableQuestionsByDifficulty_partition:
  assumes "distinct ds" and "\<forall>q \<in> set sessionQs. nivel q \<in> set ds"
  shows "(\<forall>T \<in> set ds.
            availableQuestionsByDifficulty ds sessionQs usedIds T
              = Some (filter (\<lambda>q. \<not> id_q q |\<in>| usedIds) (filter (\<lambda>q. nivel q = T) sessionQs)))
         \<and> mset (concat (map (questionsAt (availableQuestionsByDifficulty ds sessionQs usedIds)) ds))
             + mset (filter (\<lambda>q. id_q q |\<in>| usedIds) sessionQs)
           = mset sessionQs
         \<and> mset (map id_q
              (concat (map (questionsAt (availableQuestionsByDifficulty ds sessionQs usedIds)) ds)
               @ filter (\<lambda>q. id_q q |\<in>| usedIds) sessionQs))
           = mset (map id_q sessionQs)
         \<and> (distinct (map id_q sessionQs) \<longrightarrow>
              distinct (map id_q
                (concat (map (questionsAt (availableQuestionsByDifficulty ds sessionQs usedIds)) ds)
                 @ filter (\<lambda>q. id_q q |\<in>| usedIds) sessionQs)))"
proof -
  let ?parts = "concat (map (questionsAt (availableQuestionsByDifficulty ds sessionQs usedIds)) ds)
                @ filter (\<lambda>q. id_q q |\<in>| usedIds) sessionQs"
  have entries: "\<forall>T \<in> set ds.
      availableQuestionsByDifficulty ds sessionQs usedIds T
        = Some (filter (\<lambda>q. \<not> id_q q |\<in>| usedIds) (filter (\<lambda>q. nivel q = T) sessionQs))"
    by (simp add: availableQuestionsByDifficulty_apply conj_commute)
  have whole: "mset ?parts = mset sessionQs"
    using mset_available_all_tiers [OF assms] by simp
  then have "image_mset id_q (mset ?parts) = image_mset id_q (mset sessionQs)"
    by simp
  then have ids: "mset (map id_q ?parts) = mset (map id_q sessionQs)"
    by (simp only: mset_map)
  have "distinct (map id_q sessionQs) \<longrightarrow> distinct (map id_q ?parts)"
    using ids mset_eq_imp_distinct_iff by blast
  with entries whole ids show ?thesis
    using mset_available_all_tiers [OF assms] by simp
qed

theorem availableQuestionsByDifficulty_partition_witness:
  "distinct DIFFICULTIES \<and> list_all (\<lambda>q. nivel q \<in> set DIFFICULTIES) sampleSession
   \<and> availableQuestionsByDifficulty DIFFICULTIES sampleSession {|1|} Facil
       = Some [mkQuestion 3 Facil ''c'' 1]
   \<and> map id_q (concat (map (questionsAt
        (availableQuestionsByDifficulty DIFFICULTIES sampleSession {|1|})) DIFFICULTIES)
        @ filter (\<lambda>q. id_q q |\<in>| {|1|}) sampleSession) = [3, 2, 4, 1]"
  using availableQuestionsByDifficulty_partition [of DIFFICULTIES sampleSession "{|1|}"]
  by (simp add: DIFFICULTIES_def sampleSession_def mkQuestion_def questionsAt_def)

section \<open>Choosing a difficulty\<close>

lemma random_index_in_range:
  fixes random :: real
  assumes "0 \<le> random" and "random < 1" and "0 < n"
  shows "0 \<le> \<lfloor>random * real n\<rfloor> \<and> \<lfloor>random * real n\<rfloor> < int n"
proof -
  have "random * real n < real n"
    using assms by simp
  then have "\<lfloor>random * real n\<rfloor> < int n"
    by (simp add: floor_less_iff)
  moreover have "0 \<le> random * real n"
    using assms by simp
  ultimately show ?thesis by simp
qed

lemma handleSelectDifficulty_cases:
  assumes "0 \<le> random" and "random < 1"
  shows "(questionsAt (availableQuestionsByDifficulty ds (sessionQuestions st)
             (usedQuestionIds st)) difficulty = [] \<longrightarrow>
            handleSelectDifficulty ds random difficulty st = Inr st)
         \<and> (questionsAt (availableQuestionsByDifficulty ds (sessionQuestions st)
               (usedQuestionIds st)) difficulty \<noteq> [] \<longrightarrow>
            (\<exists>question \<in> set (questionsAt (availableQuestionsByDifficulty ds
                 (sessionQuestions st) (usedQuestionIds st)) difficulty).
               handleSelectDifficulty ds random difficulty st
                 = Inr (st\<lparr>currentQuestion := Some question,
                           usedQuestionIds := finsert (id_q question) (usedQuestionIds st),
                           gameState := Answering,
                           selectedAnswer := None,
                           feedback := None\<rparr>)))"
proof (cases "availableQuestionsByDifficulty ds (sessionQuestions st) (usedQuestionIds st) difficulty")
  case None
  then show ?thesis
    by (simp add: handleSelectDifficulty_def questionsAt_def)
next
  case (Some availableQuestions)
  show ?thesis
  proof (cases "availableQuestions = []")
    case True
    with Some show ?thesis
      by (simp add: handleSelectDifficulty_def questionsAt_def)
  next
    case False
    then have range: "0 \<le> \<lfloor>random * real (length availableQuestions)\<rfloor>
        \<and> \<lfloor>random * real (length availableQuestions)\<rfloor> < int (length availableQuestions)"
      using random_index_in_range [OF assms] by simp
    let ?question = "availableQuestions ! nat \<lfloor>random * real (length availableQuestions)\<rfloor>"
    from range have member: "?question \<in> set availableQuestions"
      by (intro nth_mem) linarith
    from Some False range
    have "handleSelectDifficulty ds random difficulty st
            = Inr (st\<lparr>currentQuestion := Some ?question,
                      usedQuestionIds := finsert (id_q ?question) (usedQuestionIds st),
                      gameState := Answering,
                      selectedAnswer := None,
                      feedback := None\<rparr>)"
      by (simp add: handleSelectDifficulty_def Let_def)
    with member have "\<exists>question \<in> set availableQuestions.
        handleSelectDifficulty ds random difficulty st
          = Inr (st\<lparr>currentQuestion := Some question,
                    usedQuestionIds := finsert (id_q question) (usedQuestionIds st),
                    gameState := Answering,
                    selectedAnswer := None,
                    feedback := None\<rparr>)"
      by (rule rev_bexI)
    with Some False show ?thesis
      by (simp add: questionsAt_def)
  qed
qed

text \<open>
  C5: with a random draw in \<open>[0, 1)\<close>, in every state (so in every state of the phase
  \<open>ChoosingDifficulty\<close>): when the tier has no available question, \<open>handleSelectDifficulty\<close>
  returns the state as it is, with no error; when it has one, the handler returns, again
  with no error, the state in which one of the available questions of that tier is the
  current question, its identifier is added to the used set, the selected answer and the
  feedback are cleared and the phase is \<open>Answering\<close>.
\<close>

theorem handleSelectDifficulty_guard:
  assumes "0 \<le> random" and "random < 1"
  shows "(questionsAt (availableQuestionsByDifficulty ds (sessionQuestions st)
             (usedQuestionIds st)) difficulty = [] \<longrightarrow>
            handleSelectDifficulty ds random difficulty st = Inr st)
         \<and> (questionsAt (availableQuestionsByDifficulty ds (sessionQuestions st)
               (usedQuestionIds st)) difficulty \<noteq> [] \<longrightarrow>
            (\<exists>question \<in> set (questionsAt (availableQuestionsByDifficulty ds
                 (sessionQuestions st) (usedQuestionIds st)) difficulty).
               handleSelectDifficulty ds random difficulty st
                 = Inr (st\<lparr>currentQuestion := Some question,
                           usedQuestionIds := finsert (id_q question) (usedQuestionIds st),
                           gameState := Answering,
                           selectedAnswer := None,
                           feedback := None\<rparr>)))"
  using assms by (rule handleSelectDifficulty_cases)

theorem handleSelectDifficulty_guard_witness:
  "(0::real) \<le> 1 / 2 \<and> (1::real) / 2 < 1
   \<and> handleSelectDifficulty DIFFICULTIES (1 / 2) Medio (playing sampleSession {|2|} None 0)
       = Inr (playing sampleSession {|2|} None 0)
   \<and> handleSelectDifficulty DIFFICULTIES (1 / 2) Facil (playing sampleSession {|2|} None 0)
       = Inr ((playing sampleSession {|2|} None 0)
               \<lparr>currentQuestion := Some (mkQuestion 3 Facil ''c'' 1),
                usedQuestionIds := {|3, 2|},
                gameState := Answering\<rparr>)"
  using handleSelectDifficulty_guard [of "1 / 2" DIFFICULTIES "playing sampleSession {|2|} None 0" Medio]
    handleSelectDifficulty_guard [of "1 / 2" DIFFICULTIES "playing sampleSession {|2|} None 0" Facil]
  by (simp add: handleSelectDifficulty_def availableQuestionsByDifficulty_def DIFFICULTIES_def
      sampleSession_def mkQuestion_def playing_def questionsAt_def Let_def)

section \<open>Properties of session selection\<close>

lemma DIFFICULTIES_complete: "distinct DIFFICULTIES \<and> set DIFFICULTIES = UNIV"
proof -
  have "d \<in> set DIFFICULTIES" for d
    by (cases d) (simp_all add: DIFFICULTIES_def)
  then show ?thesis
    by (auto simp: DIFFICULTIES_def)
qed

lemma foldl_append_concat:
  "foldl (\<lambda>acc d. acc @ g d) acc0 ds = acc0 @ concat (map g ds)"
  by (induction ds arbitrary: acc0) simp_all

lemma set_selectedOf:
  assumes "is_shuffle shuffle"
  shows "set (selectedOf shuffle allQs d) \<subseteq> {q \<in> set allQs. nivel q = d}"
proof -
  have "set (shuffle d (filter (\<lambda>q. nivel q = d) allQs)) = set (filter (\<lambda>q. nivel q = d) allQs)"
    using assms unfolding is_shuffle_def by (metis set_mset_mset)
  then show ?thesis
    unfolding selectedOf_def using set_take_subset by fastforce
qed

lemma length_selectedOf:
  assumes "is_shuffle shuffle"
  shows "length (selectedOf shuffle allQs d)
           = min QUESTIONS_PER_DIFFICULTY (length (filter (\<lambda>q. nivel q = d) allQs))"
proof -
  have "length (shuffle d (filter (\<lambda>q. nivel q = d) allQs))
          = length (filter (\<lambda>q. nivel q = d) allQs)"
    using assms unfolding is_shuffle_def by (metis size_mset)
  then show ?thesis
    by (simp add: selectedOf_def min.commute)
qed

lemma selectSessionQuestions_concat:
  assumes "is_shuffle shuffle"
  shows "selectSessionQuestions ds shuffle allQs = concat (map (selectedOf shuffle allQs) ds)"
proof (cases "allQs = []")
  case True
  have "selectedOf shuffle [] d = []" for d
    using set_selectedOf [OF assms, of "[]" d] by simp
  with True show ?thesis
    by (simp add: selectSessionQuestions_def)
next
  case False
  have "selectedOf shuffle allQs
          = (\<lambda>d. take QUESTIONS_PER_DIFFICULTY (shuffle d (filter (\<lambda>q. nivel q = d) allQs)))"
    by (rule ext) (simp add: selectedOf_def)
  with False show ?thesis
    by (simp add: selectSessionQuestions_def Let_def foldl_append_concat)
qed

lemma filter_concat_tiers:
  assumes "distinct ds" and "\<And>d q. q \<in> set (g d) \<Longrightarrow> nivel q = d"
  shows "filter (\<lambda>q. nivel q = T) (concat (map g ds)) = (if T \<in> set ds then g T else [])"
  using assms(1)
proof (induction ds)
  case Nil
  then show ?case by simp
next
  case (Cons a ds)
  have own: "filter (\<lambda>q. nivel q = a) (g a) = g a"
    using assms(2) by (simp add: filter_id_conv)
  have other: "filter (\<lambda>q. nivel q = T) (g a) = []" if "T \<noteq> a"
    using assms(2) that by (auto simp: filter_empty_conv)
  show ?case
  proof (cases "T = a")
    case True
    with Cons show ?thesis
      by (simp add: own)
  next
    case False
    with Cons show ?thesis
      by (simp add: other)
  qed
qed

text \<open>
  C4: for an enumeration \<open>ds\<close> without repetition (as \<open>DIFFICULTIES\<close>) and a shuffle that
  rearranges its argument, the result of \<open>selectSessionQuestions\<close> holds at most 10
  questions of each tier (for a tier of \<open>ds\<close>: 10, or all of the bank's when it has fewer),
  only questions of the bank, and is the concatenation, in the order of \<open>ds\<close>, of its own
  questions of each tier; for the empty bank it is the empty list.
\<close>

theorem selectSessionQuestions_quota:
  assumes "distinct ds" and "is_shuffle shuffle"
  shows "length (filter (\<lambda>q. nivel q = T) (selectSessionQuestions ds shuffle bank)) \<le> 10
         \<and> (T \<in> set ds \<longrightarrow>
              length (filter (\<lambda>q. nivel q = T) (selectSessionQuestions ds shuffle bank))
                = min 10 (length (filter (\<lambda>q. nivel q = T) bank)))
         \<and> set (selectSessionQuestions ds shuffle bank) \<subseteq> set bank
         \<and> selectSessionQuestions ds shuffle bank
             = concat (map (\<lambda>d. filter (\<lambda>q. nivel q = d) (selectSessionQuestions ds shuffle bank)) ds)
         \<and> selectSessionQuestions ds shuffle [] = []"
proof -
  let ?result = "selectSessionQuestions ds shuffle bank"
  have result: "?result = concat (map (selectedOf shuffle bank) ds)"
    by (rule selectSessionQuestions_concat [OF assms(2)])
  have tier: "filter (\<lambda>q. nivel q = d) ?result = (if d \<in> set ds then selectedOf shuffle bank d else [])"
    for d
    unfolding result using set_selectedOf [OF assms(2), of bank]
    by (intro filter_concat_tiers [OF assms(1)]) auto
  have quota: "length (filter (\<lambda>q. nivel q = T) ?result) \<le> 10"
    by (simp add: tier length_selectedOf [OF assms(2)] QUESTIONS_PER_DIFFICULTY_def)
  have exact: "T \<in> set ds \<longrightarrow>
      length (filter (\<lambda>q. nivel q = T) ?result) = min 10 (length (filter (\<lambda>q. nivel q = T) bank))"
    by (simp add: tier length_selectedOf [OF assms(2)] QUESTIONS_PER_DIFFICULTY_def)
  have member: "set ?result \<subseteq> set bank"
    unfolding result using set_selectedOf [OF assms(2), of bank] by auto
  have "map (\<lambda>d. filter (\<lambda>q. nivel q = d) ?result) ds = map (selectedOf shuffle bank) ds"
    by (rule map_cong) (simp_all add: tier)
  then have "concat (map (\<lambda>d. filter (\<lambda>q. nivel q = d) ?result) ds)
      = concat (map (selectedOf shuffle bank) ds)"
    by (simp only:)
  then have grouped: "?result = concat (map (\<lambda>d. filter (\<lambda>q. nivel q = d) ?result) ds)"
    by (rule trans [OF result sym])
  have empty: "selectSessionQuestions ds shuffle [] = []"
    by (simp add: selectSessionQuestions_def)
  from quota exact member grouped empty show ?thesis
    by blast
qed

theorem selectSessionQuestions_quota_witness:
  "distinct DIFFICULTIES \<and> is_shuffle (\<lambda>d. rev)
   \<and> map id_q (selectSessionQuestions DIFFICULTIES (\<lambda>d. rev) sampleBank)
       = [12, 11, 10, 9, 8, 7, 6, 5, 4, 3, 13]
   \<and> length (filter (\<lambda>q. nivel q = Facil)
        (selectSessionQuestions DIFFICULTIES (\<lambda>d. rev) sampleBank)) = 10"
proof -
  have shuffle: "is_shuffle (\<lambda>d. rev)"
    by (simp add: is_shuffle_def)
  have sel: "map id_q (selectSessionQuestions DIFFICULTIES (\<lambda>d. rev) sampleBank)
       = [12, 11, 10, 9, 8, 7, 6, 5, 4, 3, 13]"
    by (simp add: selectSessionQuestions_def DIFFICULTIES_def sampleBank_def mkQuestion_def
        QUESTIONS_PER_DIFFICULTY_def)
  have facil: "length (filter (\<lambda>q. nivel q = Facil) sampleBank) = 12"
    by (simp add: sampleBank_def mkQuestion_def)
  from selectSessionQuestions_quota [of DIFFICULTIES "\<lambda>d. rev" Facil sampleBank] shuffle sel facil
  show ?thesis
    by (simp add: DIFFICULTIES_def)
qed

section \<open>Runs of session events\<close>

lemma handleSelectDifficulty_frame:
  assumes "0 \<le> random" and "random < 1"
  shows "\<exists>st'. handleSelectDifficulty ds random difficulty st = Inr st'
           \<and> score st' = score st
           \<and> sessionQuestions st' = sessionQuestions st
           \<and> usedQuestionIds st |\<subseteq>| usedQuestionIds st'"
  using handleSelectDifficulty_cases [OF assms, of ds st difficulty]
  by (cases "questionsAt (availableQuestionsByDifficulty ds (sessionQuestions st)
        (usedQuestionIds st)) difficulty = []") auto

lemma handleAnswer_score:
  "score (handleAnswer answer st)
     = foldl number_add (score st) (map puntuacion (awarded (SubmitAnswer answer) st))"
  by (simp add: handleAnswer_def split: option.splits)

lemma handleAnswer_frame:
  "sessionQuestions (handleAnswer answer st) = sessionQuestions st
   \<and> usedQuestionIds (handleAnswer answer st) = usedQuestionIds st"
  by (simp add: handleAnswer_def Let_def split: option.splits)

lemma dispatch_step:
  assumes "random_in_range ev"
  shows "\<exists>st'. dispatch ds ev st = Inr st'
           \<and> score st' = foldl number_add (score st) (map puntuacion (awarded ev st))
           \<and> sessionQuestions st' = sessionQuestions st
           \<and> usedQuestionIds st |\<subseteq>| usedQuestionIds st'"
proof (cases ev)
  case (SelectDifficulty random difficulty)
  with assms show ?thesis
    using handleSelectDifficulty_frame [of random ds difficulty st] by auto
next
  case (SubmitAnswer answer)
  then show ?thesis
    by (simp add: handleAnswer_score handleAnswer_frame)
next
  case Continue
  then show ?thesis
    by (simp add: handleContinue_def)
next
  case EndGame
  then show ?thesis
    by (simp add: handleEndGame_def)
qed

lemma run_session:
  assumes "list_all random_in_range evs"
  shows "\<exists>st'. run ds evs st = Inr st'
           \<and> score st' = foldl number_add (score st) (map puntuacion (correctlyAnswered ds evs st))
           \<and> sessionQuestions st' = sessionQuestions st
           \<and> usedQuestionIds st |\<subseteq>| usedQuestionIds st'"
  using assms
proof (induction evs arbitrary: st)
  case Nil
  then show ?case by simp
next
  case (Cons ev evs)
  from Cons.prems have "random_in_range ev" and rest: "list_all random_in_range evs"
    by simp_all
  then obtain st1 where step: "dispatch ds ev st = Inr st1"
    and score1: "score st1 = foldl number_add (score st) (map puntuacion (awarded ev st))"
    and session1: "sessionQuestions st1 = sessionQuestions st"
    and used1: "usedQuestionIds st |\<subseteq>| usedQuestionIds st1"
    using dispatch_step [of ev ds st] by blast
  from Cons.IH [OF rest, of st1] obtain st' where tail: "run ds evs st1 = Inr st'"
    and score': "score st' = foldl number_add (score st1) (map puntuacion (correctlyAnswered ds evs st1))"
    and session': "sessionQuestions st' = sessionQuestions st1"
    and used': "usedQuestionIds st1 |\<subseteq>| usedQuestionIds st'"
    by blast
  from step tail have "run ds (ev # evs) st = Inr st'"
    by simp
  moreover from step score1 score'
  have "score st' = foldl number_add (score st) (map puntuacion (correctlyAnswered ds (ev # evs) st))"
    by simp
  moreover from session1 session' have "sessionQuestions st' = sessionQuestions st"
    by simp
  moreover from used1 used' have "usedQuestionIds st |\<subseteq>| usedQuestionIds st'"
    by (rule order_trans)
  ultimately show ?case
    by blast
qed

lemmas sample_defs =
  sampleEvents_def sampleStart_def handleStartGame_def selectSessionQuestions_def playing_def
  sampleSession_def mkQuestion_def DIFFICULTIES_def QUESTIONS_PER_DIFFICULTY_def
  handleSelectDifficulty_def availableQuestionsByDifficulty_def handleAnswer_def
  handleContinue_def isGameFinished_def Let_def fcard_finsert_if fcard_fempty number_add_exact

section \<open>Score\<close>




section \<open>Used questions\<close>

lemma run_sample_first:
  "run DIFFICULTIES [SelectDifficulty (1 / 2) Facil, SubmitAnswer ''c'', Continue]
     (playing sampleSession {||} None 0) = Inr afterFirstQuestion"
  by (simp add: afterFirstQuestion_def sample_defs)

lemma select_after_first:
  "map_sum id (\<lambda>st. (map_option id_q (currentQuestion st), usedQuestionIds st))
     (handleSelectDifficulty DIFFICULTIES 0 Facil afterFirstQuestion) = Inr (Some 1, {|1, 3|})"
  by (simp add: afterFirstQuestion_def sample_defs)

text \<open>
  C6: take any state, run any session events from it (random draws in \<open>[0, 1)\<close>), then
  choose a difficulty. The run and the choice return states; the session is the same; the
  used set only grows, over the run and over the choice; and the choice either changes
  nothing or makes current a session question of the chosen tier whose identifier is
  neither in the used set at that moment nor in the used set the run began with, and adds
  that identifier. An identifier that is in the used set at some moment is thus never drawn
  later in the session.
\<close>

theorem used_question_not_selected_again:
  assumes "list_all random_in_range evs" and "0 \<le> random" and "random < 1"
  shows "\<exists>st1 st2. run ds evs st = Inr st1
           \<and> handleSelectDifficulty ds random difficulty st1 = Inr st2
           \<and> sessionQuestions st1 = sessionQuestions st
           \<and> usedQuestionIds st |\<subseteq>| usedQuestionIds st1
           \<and> usedQuestionIds st1 |\<subseteq>| usedQuestionIds st2
           \<and> (st2 = st1
                \<or> (\<exists>question \<in> set (sessionQuestions st).
                      currentQuestion st2 = Some question
                      \<and> nivel question = difficulty
                      \<and> \<not> id_q question |\<in>| usedQuestionIds st1
                      \<and> \<not> id_q question |\<in>| usedQuestionIds st
                      \<and> usedQuestionIds st2 = finsert (id_q question) (usedQuestionIds st1)))"
proof -
  from run_session [OF assms(1), of ds st] obtain st1 where final: "run ds evs st = Inr st1"
    and session: "sessionQuestions st1 = sessionQuestions st"
    and grown: "usedQuestionIds st |\<subseteq>| usedQuestionIds st1"
    by blast
  let ?available = "questionsAt (availableQuestionsByDifficulty ds (sessionQuestions st1)
      (usedQuestionIds st1)) difficulty"
  show ?thesis
  proof (cases "?available = []")
    case True
    then have "handleSelectDifficulty ds random difficulty st1 = Inr st1"
      using handleSelectDifficulty_cases [OF assms(2,3), of ds st1 difficulty] by simp
    with final session grown show ?thesis
      by auto
  next
    case False
    then obtain question where drawn: "question \<in> set ?available"
      and result: "handleSelectDifficulty ds random difficulty st1
          = Inr (st1\<lparr>currentQuestion := Some question,
                     usedQuestionIds := finsert (id_q question) (usedQuestionIds st1),
                     gameState := Answering,
                     selectedAnswer := None,
                     feedback := None\<rparr>)"
      using handleSelectDifficulty_cases [OF assms(2,3), of ds st1 difficulty] by blast
    from drawn have member: "question \<in> set (sessionQuestions st)"
      and tier: "nivel question = difficulty"
      and fresh1: "\<not> id_q question |\<in>| usedQuestionIds st1"
      by (auto simp: questionsAt_available session split: if_splits)
    from fresh1 grown have fresh: "\<not> id_q question |\<in>| usedQuestionIds st"
      by auto
    let ?st2 = "st1\<lparr>currentQuestion := Some question,
                     usedQuestionIds := finsert (id_q question) (usedQuestionIds st1),
                     gameState := Answering,
                     selectedAnswer := None,
                     feedback := None\<rparr>"
    have "currentQuestion ?st2 = Some question"
      and "usedQuestionIds ?st2 = finsert (id_q question) (usedQuestionIds st1)"
      and "usedQuestionIds st1 |\<subseteq>| usedQuestionIds ?st2"
      by auto
    with final result session grown member tier fresh1 fresh show ?thesis
      by blast
  qed
qed

theorem used_question_not_selected_again_witness:
  "list_all random_in_range [SelectDifficulty (1 / 2) Facil, SubmitAnswer ''c'', Continue]
   \<and> (0::real) \<le> 0 \<and> (0::real) < 1
   \<and> (\<exists>st1 st2.
         run DIFFICULTIES [SelectDifficulty (1 / 2) Facil, SubmitAnswer ''c'', Continue]
           (playing sampleSession {||} None 0) = Inr st1
         \<and> handleSelectDifficulty DIFFICULTIES 0 Facil st1 = Inr st2
         \<and> usedQuestionIds st1 = {|3|}
         \<and> map_option id_q (currentQuestion st2) = Some 1
         \<and> usedQuestionIds st2 = {|1, 3|})"
proof -
  have ok: "list_all random_in_range [SelectDifficulty (1 / 2) Facil, SubmitAnswer ''c'', Continue]"
    by simp
  from used_question_not_selected_again [OF ok, of 0 DIFFICULTIES "playing sampleSession {||} None 0" Facil]
  obtain st1 st2 where
    first: "run DIFFICULTIES [SelectDifficulty (1 / 2) Facil, SubmitAnswer ''c'', Continue]
       (playing sampleSession {||} None 0) = Inr st1"
    and chosen: "handleSelectDifficulty DIFFICULTIES 0 Facil st1 = Inr st2"
    by auto
  from first have st1: "st1 = afterFirstQuestion"
    by (simp only: run_sample_first sum.inject)
  then have used1: "usedQuestionIds st1 = {|3|}"
    by (simp add: afterFirstQuestion_def playing_def)
  from select_after_first chosen
  have "map_option id_q (currentQuestion st2) = Some 1 \<and> usedQuestionIds st2 = {|1, 3|}"
    by (simp add: st1)
  with first chosen used1 ok show ?thesis
    by auto
qed

end
